theory Spec2Isabelle
  imports Complex_Main "HOL-Library.Stream"
begin

section \<open>Restyling antlines (antlines.py)\<close>

text \<open>
  A shallow embedding of \<^verbatim>\<open>src/antlines.py\<close>: the texture record \<^verbatim>\<open>AntTex\<close>, the
  style record \<^verbatim>\<open>AntType\<close>, the run-length generator \<^verbatim>\<open>broken_antline_iter\<close> and
  \<^verbatim>\<open>style_antline\<close>. Python floats are modelled as \<open>real\<close> (rounding is left out),
  Python ints as \<open>int\<close>, exceptions as values of \<open>error\<close>.
\<close>

subsection \<open>Errors\<close>

datatype error =
    ValueError string
  | IndexError
  | AttributeError
  | OverflowError

subsection \<open>The pseudo-random stream\<close>

text \<open>
  Modelled from the spec: Python's \<^verbatim>\<open>random\<close> module is not part of the repository.
  The process-global generator state is a stream of raw draws; \<^verbatim>\<open>random.randrange(n)\<close>
  takes the next raw draw modulo \<open>n\<close>, so every outcome below \<open>n\<close> is possible, and
  \<^verbatim>\<open>random.choice\<close> raises \<^verbatim>\<open>IndexError\<close> on an empty sequence. What
  \<^verbatim>\<open>random.seed\<close> makes of a string is a parameter (\<open>seed\<close> below).
\<close>

type_synonym rng = "nat stream"

definition randrange :: "nat \<Rightarrow> rng \<Rightarrow> nat \<times> rng" where
  "randrange n g = (shd g mod n, stl g)"

definition choice :: "'a list \<Rightarrow> rng \<Rightarrow> error + ('a \<times> rng)" where
  "choice xs g =
     (if xs = [] then Inl IndexError
      else (let (i, g') = randrange (length xs) g in Inr (xs ! i, g')))"

text \<open>\<^verbatim>\<open>random.randrange(100) < chance\<close>: one Bernoulli trial.\<close>

definition trial :: "real \<Rightarrow> rng \<Rightarrow> bool \<times> rng" where
  "trial chance g = (let (r, g') = randrange 100 g in (real r < chance, g'))"

subsection \<open>The run-length generator\<close>

text \<open>
  \<^verbatim>\<open>broken_antline_iter\<close> is a Python generator: it runs interleaved with its
  consumer, and both draw from the one global stream. The model threads the stream and
  the consumer's data through the loop: \<open>body\<close> is what the consumer does with each
  yielded run, and an exception raised there ends the iteration. The list returned
  first is the sequence of runs yielded so far.
\<close>

type_synonym run = "int \<times> int \<times> bool"

type_synonym 'd consumer = "run \<Rightarrow> rng \<times> 'd \<Rightarrow> error option \<times> rng \<times> 'd"

text \<open>
  The argument \<^verbatim>\<open>dist\<close> is a Python number: a finite value (an int, or a float, modelled
  as a real), an infinity or NaN.
\<close>

datatype pyfloat = Finite real | PosInf | NegInf | NaN

text \<open>\<^verbatim>\<open>dist <= 0\<close>: true of minus infinity, false of NaN.\<close>

definition py_nonpos :: "pyfloat \<Rightarrow> bool" where
  "py_nonpos x = (case x of Finite r \<Rightarrow> r \<le> 0 | NegInf \<Rightarrow> True | PosInf \<Rightarrow> False | NaN \<Rightarrow> False)"

text \<open>
  \<^verbatim>\<open>int(dist)\<close> truncates a finite value towards zero; it raises \<^verbatim>\<open>OverflowError\<close> on an
  infinity and \<^verbatim>\<open>ValueError\<close> on NaN.
\<close>

definition py_trunc :: "real \<Rightarrow> int" where
  "py_trunc r = (if 0 \<le> r then \<lfloor>r\<rfloor> else \<lceil>r\<rceil>)"

definition py_int :: "pyfloat \<Rightarrow> error + int" where
  "py_int x =
     (case x of
        Finite r \<Rightarrow> Inr (py_trunc r)
      | PosInf \<Rightarrow> Inl OverflowError
      | NegInf \<Rightarrow> Inl OverflowError
      | NaN \<Rightarrow> Inl (ValueError ''cannot convert float NaN to integer''))"

text \<open>
  The \<^verbatim>\<open>for i in range(1, int(dist))\<close> loop over the remaining indices, and the final
  \<^verbatim>\<open>yield run_start, int(dist), last_type\<close>; \<open>n\<close> is the value of \<^verbatim>\<open>int(dist)\<close>.
\<close>

fun antline_loop ::
  "real \<Rightarrow> 'd consumer \<Rightarrow> int \<Rightarrow> int list \<Rightarrow> int \<Rightarrow> bool \<Rightarrow> rng \<times> 'd
     \<Rightarrow> run list \<times> error option \<times> rng \<times> 'd" where
  "antline_loop chance body n [] run_start last_type s =
     ([(run_start, n, last_type)], body (run_start, n, last_type) s)"
| "antline_loop chance body n (i # is) run_start last_type s =
     (let (next_type, g') = trial chance (fst s) in
      if next_type \<noteq> last_type then
        (case body (run_start, i, last_type) (g', snd s) of
           (Some e, s') \<Rightarrow> ([(run_start, i, last_type)], Some e, s')
         | (None, s') \<Rightarrow>
             (let (rs, res) = antline_loop chance body n is i next_type s'
              in ((run_start, i, last_type) # rs, res)))
      else antline_loop chance body n is run_start last_type (g', snd s))"

text \<open>
  The generator from its start: the first draw, then \<^verbatim>\<open>int(dist)\<close>, which raises
  before any run is yielded when \<^verbatim>\<open>dist\<close> is not finite.
\<close>

definition iterate_antline ::
  "'d consumer \<Rightarrow> pyfloat \<Rightarrow> real \<Rightarrow> rng \<times> 'd \<Rightarrow> run list \<times> error option \<times> rng \<times> 'd" where
  "iterate_antline body dist' chance s =
     (let run_start = 0;
          (last_type, g') = trial chance (fst s)
      in case py_int dist' of
           Inl e \<Rightarrow> ([], Some e, g', snd s)
         | Inr n \<Rightarrow>
             antline_loop chance body n [1 .. n - 1] run_start last_type (g', snd s))"

text \<open>
  The generator run to exhaustion with nothing drawn in between, as by
  \<^verbatim>\<open>list(broken_antline_iter(dist, chance))\<close>: the runs yielded, the exception raised if
  any, and the stream left behind.
\<close>

definition broken_antline_iter ::
  "pyfloat \<Rightarrow> real \<Rightarrow> rng \<Rightarrow> run list \<times> error option \<times> rng" where
  "broken_antline_iter dist' chance g =
     (let (rs, res) = iterate_antline (\<lambda>r s. (None, s)) dist' chance (g, ())
      in (rs, fst res, fst (snd res)))"

subsection \<open>Properties of a sequence of runs\<close>

fun start_of :: "run \<Rightarrow> int" where "start_of (a, b, t) = a"
fun end_of :: "run \<Rightarrow> int" where "end_of (a, b, t) = b"
fun tag_of :: "run \<Rightarrow> bool" where "tag_of (a, b, t) = t"

text \<open>Each run's end is the next run's start.\<close>

fun contiguous :: "run list \<Rightarrow> bool" where
  "contiguous (r # r' # rs) = (end_of r = start_of r' \<and> contiguous (r' # rs))"
| "contiguous rs = True"

text \<open>No two adjacent runs carry the same tag.\<close>

fun alternating :: "run list \<Rightarrow> bool" where
  "alternating (r # r' # rs) = (tag_of r \<noteq> tag_of r' \<and> alternating (r' # rs))"
| "alternating rs = True"

text \<open>Every run is non-empty: together with contiguity, no overlaps.\<close>

definition proper_runs :: "run list \<Rightarrow> bool" where
  "proper_runs rs = list_all (\<lambda>r. start_of r < end_of r) rs"

definition total_span :: "run list \<Rightarrow> int" where
  "total_span rs = sum_list (map (\<lambda>r. end_of r - start_of r) rs)"

text \<open>The run holds cell \<open>k\<close>.\<close>

definition covers :: "int \<Rightarrow> run \<Rightarrow> bool" where
  "covers k r = (start_of r \<le> k \<and> k < end_of r)"

subsection \<open>Values outside the repository\<close>

text \<open>\<^verbatim>\<open>srctools.Vec\<close>: three float components, indexed by axis.\<close>

datatype vec = Vec (vec_x: real) (vec_y: real) (vec_z: real)

datatype axis = AxisX | AxisY | AxisZ

fun vec_get :: "vec \<Rightarrow> axis \<Rightarrow> real" where
  "vec_get v AxisX = vec_x v"
| "vec_get v AxisY = vec_y v"
| "vec_get v AxisZ = vec_z v"

fun vec_set :: "vec \<Rightarrow> axis \<Rightarrow> real \<Rightarrow> vec" where
  "vec_set (Vec a b c) AxisX r = Vec r b c"
| "vec_set (Vec a b c) AxisY r = Vec a r c"
| "vec_set (Vec a b c) AxisZ r = Vec a b r"

definition vec_sub :: "vec \<Rightarrow> vec \<Rightarrow> vec" where
  "vec_sub u v = Vec (vec_x u - vec_x v) (vec_y u - vec_y v) (vec_z u - vec_z v)"

text \<open>\<^verbatim>\<open>max(v)\<close> iterates over the three components.\<close>

definition vec_max :: "vec \<Rightarrow> real" where
  "vec_max v = max (vec_x v) (max (vec_y v) (vec_z v))"

text \<open>The Python values the code stores into an entity's fields.\<close>

datatype pyval = PStr string | PInt int | PFloat real | PVec vec

text \<open>An entity's keyvalues: strings, as \<^verbatim>\<open>srctools.Entity\<close> keeps them.\<close>

type_synonym entity = "string \<rightharpoonup> string"

text \<open>
  What the code takes from \<^verbatim>\<open>srctools\<close>, \<^verbatim>\<open>comp_consts\<close> and \<^verbatim>\<open>random\<close>, none of
  them in the repository, as parameters:
  the two base materials \<^verbatim>\<open>const.Antlines.STRAIGHT\<close> and \<^verbatim>\<open>const.Antlines.CORNER\<close>;
  Python's \<^verbatim>\<open>float(s)\<close> (\<open>None\<close> where it raises) and \<^verbatim>\<open>conv_bool(s, default)\<close>;
  \<^verbatim>\<open>Vec.from_str\<close>; \<^verbatim>\<open>str(v)\<close> of an int, a float or a \<^verbatim>\<open>Vec\<close>, which
  \<^verbatim>\<open>Entity.__setitem__\<close> applies to what it stores; \<^verbatim>\<open>Vec.join(delim)\<close>;
  \<^verbatim>\<open>srctools.vmf.overlay_bounds\<close>; the axis of \<^verbatim>\<open>Vec(0, 1, 0).rotate_by_str(angles)\<close>,
  taken to be defined for every \<^verbatim>\<open>angles\<close>; and the stream \<^verbatim>\<open>random.seed(s)\<close> installs.
\<close>

record ext =
  STRAIGHT :: string
  CORNER :: string
  py_float :: "string \<Rightarrow> real option"
  conv_bool :: "string \<Rightarrow> bool \<Rightarrow> bool"
  vec_from_str :: "string \<Rightarrow> vec"
  py_str :: "pyval \<Rightarrow> string"
  vec_join :: "string \<Rightarrow> vec \<Rightarrow> string"
  overlay_bounds :: "entity \<Rightarrow> vec \<times> vec"
  long_axis :: "string \<Rightarrow> axis"
  seed :: "string \<Rightarrow> rng"

text \<open>\<^verbatim>\<open>conv_float(val, default)\<close>: \<^verbatim>\<open>float(val)\<close>, or the default where that raises.\<close>

definition conv_float :: "ext \<Rightarrow> string \<Rightarrow> real \<Rightarrow> real" where
  "conv_float X val default' = (case py_float X val of Some r \<Rightarrow> r | None \<Rightarrow> default')"

subsection \<open>The configuration tree\<close>

text \<open>
  Modelled from the spec: \<^verbatim>\<open>srctools.Property\<close> is not part of the repository. Following
  the configuration schema, a texture node is a scalar string or a block of key/value
  pairs, and a style block is the list of its named children in document order. A key
  is looked up by its exact name, the last entry winning; a missing key makes
  \<^verbatim>\<open>prop[key]\<close> raise \<^verbatim>\<open>IndexError\<close> and makes \<^verbatim>\<open>prop.float\<close> and
  \<^verbatim>\<open>prop.bool\<close> return their defaults.
\<close>

datatype tex_prop = Scalar string | Block "(string \<times> string) list"

type_synonym style_prop = "(string \<times> tex_prop) list"

definition has_children :: "tex_prop \<Rightarrow> bool" where
  "has_children prop = (case prop of Block kids \<Rightarrow> True | Scalar v \<Rightarrow> False)"

definition prop_getitem :: "(string \<times> string) list \<Rightarrow> string \<Rightarrow> error + string" where
  "prop_getitem kids key =
     (case map_of (rev kids) key of None \<Rightarrow> Inl IndexError | Some v \<Rightarrow> Inr v)"

definition prop_float :: "ext \<Rightarrow> (string \<times> string) list \<Rightarrow> string \<Rightarrow> real \<Rightarrow> real" where
  "prop_float X kids key default' =
     (case map_of (rev kids) key of None \<Rightarrow> default' | Some v \<Rightarrow> conv_float X v default')"

definition prop_bool :: "ext \<Rightarrow> (string \<times> string) list \<Rightarrow> string \<Rightarrow> bool" where
  "prop_bool X kids key =
     (case map_of (rev kids) key of None \<Rightarrow> False | Some v \<Rightarrow> conv_bool X v False)"

text \<open>At the style level a child can be a block, which \<^verbatim>\<open>float\<close> refuses.\<close>

definition style_float :: "ext \<Rightarrow> style_prop \<Rightarrow> string \<Rightarrow> real \<Rightarrow> real" where
  "style_float X kids key default' =
     (case map_of (rev kids) key of
        Some (Scalar v) \<Rightarrow> conv_float X v default'
      | _ \<Rightarrow> default')"

definition find_all :: "style_prop \<Rightarrow> string \<Rightarrow> tex_prop list" where
  "find_all kids key = map snd (filter (\<lambda>kv. fst kv = key) kids)"

text \<open>\<^verbatim>\<open>str.split(sep)\<close> for a one-character separator: never an empty list.\<close>

fun split_str :: "char \<Rightarrow> string \<Rightarrow> string list" where
  "split_str c [] = [[]]"
| "split_str c (x # xs) =
     (if x = c then [] # split_str c xs
      else (case split_str c xs of
              w # ws \<Rightarrow> (x # w) # ws
            | [] \<Rightarrow> [[x]]))"

subsection \<open>AntTex\<close>

record AntTex =
  texture :: string
  scale :: real
  static :: bool

definition AntTex_parse :: "ext \<Rightarrow> tex_prop \<Rightarrow> error + AntTex" where
  "AntTex_parse X prop =
     (case prop of
        Block kids \<Rightarrow>
          (case prop_getitem kids ''tex'' of
             Inl e \<Rightarrow> Inl e
           | Inr tex \<Rightarrow>
               Inr \<lparr>texture = tex,
                    scale = prop_float X kids ''scale'' (1 / 4),
                    static = prop_bool X kids ''static''\<rparr>)
      | Scalar v \<Rightarrow>
          (let vals = split_str CHR ''|'' v in
           if length vals = 2 then
             Inr \<lparr>texture = vals ! 1,
                  scale = conv_float X (vals ! 0) (1 / 4),
                  static = (''static'' \<in> set [])\<rparr>
           else if length vals > 2 then
             Inr \<lparr>texture = vals ! 1,
                  scale = conv_float X (vals ! 0) (1 / 4),
                  static = (''static'' \<in> set (drop 2 vals))\<rparr>
           else
             (case vals of
                [tex] \<Rightarrow>
                  Inr \<lparr>texture = tex,
                       scale = conv_float X ''0.25'' (1 / 4),
                       static = (''static'' \<in> set [])\<rparr>
              | [] \<Rightarrow> Inl (ValueError ''not enough values to unpack (expected 1, got 0)'')
              | _ \<Rightarrow> Inl (ValueError ''too many values to unpack (expected 1)''))))"

text \<open>The fields of an entity: a missing key reads as the empty string.\<close>

definition ent_get :: "entity \<Rightarrow> string \<Rightarrow> string" where
  "ent_get e key = (case e key of None \<Rightarrow> [] | Some v \<Rightarrow> v)"

definition to_str :: "ext \<Rightarrow> pyval \<Rightarrow> string" where
  "to_str X v = (case v of PStr s \<Rightarrow> s | _ \<Rightarrow> py_str X v)"

definition ent_set :: "ext \<Rightarrow> entity \<Rightarrow> string \<Rightarrow> pyval \<Rightarrow> entity" where
  "ent_set X e key v = e(key \<mapsto> to_str X v)"

definition ent_del :: "entity \<Rightarrow> string \<Rightarrow> entity" where
  "ent_del e key = e(key := None)"

definition AntTex_apply :: "ext \<Rightarrow> AntTex \<Rightarrow> entity \<Rightarrow> entity" where
  "AntTex_apply X self overlay =
     (let o1 = ent_set X overlay ''material'' (PStr (texture self));
          o2 = ent_set X o1 ''endu'' (PFloat (scale self))
      in if static self then ent_del o2 ''targetname'' else o2)"

subsection \<open>AntType\<close>

record AntType =
  tex_straight :: "AntTex list"
  tex_corner :: "AntTex list"
  broken_corner :: "AntTex list"
  broken_straight :: "AntTex list"
  broken_chance :: real

definition AntType_init ::
  "AntTex list \<Rightarrow> AntTex list \<Rightarrow> AntTex list \<Rightarrow> AntTex list \<Rightarrow> real \<Rightarrow> AntType" where
  "AntType_init tex_straight' tex_corner' broken_straight' broken_corner' broken_chance' =
     (let (broken_corner'', broken_straight'') =
            (if broken_chance' = 0 then ([], []) else (broken_corner', broken_straight'))
      in \<lparr>tex_straight = tex_straight',
          tex_corner = tex_corner',
          broken_corner = broken_corner'',
          broken_straight = broken_straight'',
          broken_chance = broken_chance'\<rparr>)"

text \<open>The inner loop of \<^verbatim>\<open>AntType.parse\<close>: the first entry that fails to parse raises.\<close>

fun parse_all :: "ext \<Rightarrow> tex_prop list \<Rightarrow> error + AntTex list" where
  "parse_all X [] = Inr []"
| "parse_all X (sub_prop # rest) =
     (case AntTex_parse X sub_prop of
        Inl e \<Rightarrow> Inl e
      | Inr t \<Rightarrow> (case parse_all X rest of Inl e \<Rightarrow> Inl e | Inr ts \<Rightarrow> Inr (t # ts)))"

definition AntType_parse :: "ext \<Rightarrow> style_prop \<Rightarrow> error + AntType" where
  "AntType_parse X prop =
     (let broken_chance' = style_float X prop ''broken_chance'' 0 in
      case parse_all X (find_all prop ''straight'') of Inl e \<Rightarrow> Inl e | Inr tex_straight' \<Rightarrow>
      case parse_all X (find_all prop ''corner'') of Inl e \<Rightarrow> Inl e | Inr tex_corner' \<Rightarrow>
      case parse_all X (find_all prop ''broken_straight'') of Inl e \<Rightarrow> Inl e | Inr brok_straight \<Rightarrow>
      case parse_all X (find_all prop ''broken_corner'') of Inl e \<Rightarrow> Inl e | Inr brok_corner \<Rightarrow>
        Inr (AntType_init tex_straight' tex_corner' brok_straight brok_corner broken_chance'))"

definition AntType_default :: "ext \<Rightarrow> AntType" where
  "AntType_default X =
     AntType_init
       [\<lparr>texture = STRAIGHT X, scale = 1 / 4, static = False\<rparr>]
       [\<lparr>texture = CORNER X, scale = 1, static = False\<rparr>]
       [] [] 0"

subsection \<open>The document\<close>

text \<open>
  Modelled from the spec: \<^verbatim>\<open>srctools.VMF\<close> and \<^verbatim>\<open>Entity\<close> are not part of the
  repository. Entity objects live in a store indexed by address; \<open>entities\<close> lists the
  addresses the document holds. \<^verbatim>\<open>Entity.copy()\<close> allocates a new object with the same
  keyvalues, \<^verbatim>\<open>add_ent\<close> appends it to the document, \<^verbatim>\<open>Entity.remove()\<close> takes the
  entity out of the document. The overlay handed to \<^verbatim>\<open>style_antline\<close> is taken to be
  listed in its document; removing an entity the document does not list is outside the
  model.
\<close>

record vmf =
  store :: "nat \<Rightarrow> entity"
  next_id :: nat
  entities :: "nat list"

definition ent_copy :: "vmf \<Rightarrow> nat \<Rightarrow> nat \<times> vmf" where
  "ent_copy d h =
     (next_id d, d\<lparr>store := (store d)(next_id d := store d h), next_id := Suc (next_id d)\<rparr>)"

definition add_ent :: "vmf \<Rightarrow> nat \<Rightarrow> vmf" where
  "add_ent d h = d\<lparr>entities := entities d @ [h]\<rparr>"

definition ent_remove :: "vmf \<Rightarrow> nat \<Rightarrow> vmf" where
  "ent_remove d h = d\<lparr>entities := remove1 h (entities d)\<rparr>"

definition ent_update :: "vmf \<Rightarrow> nat \<Rightarrow> (entity \<Rightarrow> entity) \<Rightarrow> vmf" where
  "ent_update d h f = d\<lparr>store := (store d)(h := f (store d h))\<rparr>"

subsection \<open>style_antline\<close>

text \<open>\<^verbatim>\<open>random.choice(mats).apply(over)\<close> on the entity at address \<open>h\<close>.\<close>

definition choose_apply ::
  "ext \<Rightarrow> AntTex list \<Rightarrow> nat \<Rightarrow> rng \<times> vmf \<Rightarrow> error option \<times> rng \<times> vmf" where
  "choose_apply X mats h s =
     (case choice mats (fst s) of
        Inl e \<Rightarrow> (Some e, s)
      | Inr (t, g') \<Rightarrow> (None, g', ent_update (snd s) h (AntTex_apply X t)))"

text \<open>
  One turn of \<^verbatim>\<open>for axis in '0123'\<close>: the corner point's \<open>y\<close> becomes
  \<open>8 * sect_length\<close>, negative where it was negative.
\<close>

definition set_uv :: "ext \<Rightarrow> int \<Rightarrow> string \<Rightarrow> entity \<Rightarrow> entity" where
  "set_uv X sect_length axis' new_over =
     (let pos = vec_from_str X (ent_get new_over (''uv'' @ axis'));
          pos' = (if vec_y pos < 0 then vec_set pos AxisY (of_int (- 8 * sect_length))
                  else vec_set pos AxisY (of_int (8 * sect_length)))
      in ent_set X new_over (''uv'' @ axis') (PStr (vec_join X '' '' pos')))"

text \<open>The fields of a section, set on the copy before a texture is chosen.\<close>

definition section_fields :: "ext \<Rightarrow> vec \<Rightarrow> axis \<Rightarrow> int \<Rightarrow> int \<Rightarrow> entity \<Rightarrow> entity" where
  "section_fields X min_origin long_ax sect_min sect_max new_over =
     (let sect_length = sect_max - sect_min;
          e1 = ent_set X new_over ''startV'' (PInt sect_length);
          sect_center = of_int (sect_min + sect_max) / 2;
          sect_origin = vec_set min_origin long_ax
                          (vec_get min_origin long_ax + sect_center * 16);
          e2 = ent_set X e1 ''basisorigin'' (PVec sect_origin);
          e3 = ent_set X e2 ''origin'' (PVec sect_origin)
      in fold (set_uv X sect_length) [''0'', ''1'', ''2'', ''3''] e3)"

text \<open>The body of \<^verbatim>\<open>for sect_min, sect_max, is_broken in broken_iter\<close>.\<close>

definition make_section ::
  "ext \<Rightarrow> nat \<Rightarrow> AntTex list \<Rightarrow> AntTex list \<Rightarrow> vec \<Rightarrow> axis \<Rightarrow> vmf consumer" where
  "make_section X over mats broken_mats min_origin long_ax r s =
     (case r of (sect_min, sect_max, is_broken) \<Rightarrow>
        (let sect_mats = (if is_broken then broken_mats else mats);
             (new_over, d1) = ent_copy (snd s) over;
             d2 = add_ent d1 new_over;
             d3 = ent_update d2 new_over (section_fields X min_origin long_ax sect_min sect_max)
         in choose_apply X sect_mats new_over (fst s, d3)))"

text \<open>
  The classification of the overlay's material; reading a list of an absent
  configuration (\<^verbatim>\<open>None\<close>) raises \<^verbatim>\<open>AttributeError\<close>.
\<close>

definition classify ::
  "ext \<Rightarrow> entity \<Rightarrow> AntType option \<Rightarrow> error + (AntType \<times> AntTex list \<times> AntTex list)" where
  "classify X over conf =
     (if ent_get over ''material'' = STRAIGHT X then
        (case conf of None \<Rightarrow> Inl AttributeError
         | Some c \<Rightarrow> Inr (c, tex_straight c, broken_straight c))
      else if ent_get over ''material'' = CORNER X then
        (case conf of None \<Rightarrow> Inl AttributeError
         | Some c \<Rightarrow> Inr (c, tex_corner c, broken_corner c))
      else
        Inl (ValueError (CHR 0x22 # ent_get over ''material'' @ CHR 0x22 # '' is not an antline!'')))"

text \<open>
  The surface selection: \<^verbatim>\<open>if Vec.from_str(over['basisNormal']).z != 0: conf = floor_conf\<close>.
  The assignment is made whatever \<^verbatim>\<open>floor_conf\<close> is; \<open>None\<close> is \<^verbatim>\<open>floor_conf\<close> not set.
\<close>

definition selected_conf :: "ext \<Rightarrow> entity \<Rightarrow> AntType \<Rightarrow> AntType option \<Rightarrow> AntType option" where
  "selected_conf X over conf floor_conf =
     (if vec_z (vec_from_str X (ent_get over ''basisNormal'')) \<noteq> 0 then floor_conf
      else Some conf)"

text \<open>\<^verbatim>\<open>length = max(bbox_max - bbox_min)\<close> of the overlay's bounds.\<close>

definition overlay_length :: "ext \<Rightarrow> entity \<Rightarrow> real" where
  "overlay_length X over =
     (let (bbox_min, bbox_max) = overlay_bounds X over
      in vec_max (vec_sub bbox_max bbox_min))"

text \<open>\<^verbatim>\<open>min_origin = Vec.from_str(over['origin']); min_origin[long_axis] -= length / 2\<close>.\<close>

definition min_origin_of :: "ext \<Rightarrow> entity \<Rightarrow> axis \<Rightarrow> real \<Rightarrow> vec" where
  "min_origin_of X over long_ax len =
     (let min_origin = vec_from_str X (ent_get over ''origin'')
      in vec_set min_origin long_ax (vec_get min_origin long_ax - len / 2))"

text \<open>
  \<open>style_antline X over conf floor_conf (g, d)\<close>: \<open>over\<close> is the address of the overlay
  in the document \<open>d\<close>, \<open>g\<close> the state of the global generator at the call, and
  \<open>floor_conf\<close> is \<open>None\<close> when it is not set. The result is the exception raised, if
  any, with the generator and the document as the call leaves them.
\<close>

definition style_antline ::
  "ext \<Rightarrow> nat \<Rightarrow> AntType \<Rightarrow> AntType option \<Rightarrow> rng \<times> vmf \<Rightarrow> error option \<times> rng \<times> vmf" where
  "style_antline X over conf floor_conf s =
     (let d = snd s;
          g = seed X (ent_get (store d over) ''origin'');
          conf' = selected_conf X (store d over) conf floor_conf
      in case classify X (store d over) conf' of
           Inl e \<Rightarrow> (Some e, g, d)
         | Inr (c, mats, broken_mats) \<Rightarrow>
             if broken_chance c \<noteq> 0 then
               (let len = overlay_length X (store d over);
                    long_ax = long_axis X (ent_get (store d over) ''angles'')
                in if len \<le> 48 then
                     (let (r, g1) = randrange 100 g;
                          mats' = (if real r < broken_chance c then broken_mats else mats)
                      in choose_apply X mats' over (g1, d))
                   else
                     (let min_origin = min_origin_of X (store d over) long_ax len;
                          (runs, err, g', d') =
                             iterate_antline
                               (make_section X over mats broken_mats min_origin long_ax)
                               (Finite (of_int \<lfloor>len / 16\<rfloor>)) (broken_chance c) (g, d)
                      in case err of
                           Some e \<Rightarrow> (Some e, g', d')
                         | None \<Rightarrow> (None, g', ent_remove d' over)))
             else choose_apply X mats over (g, d))"

subsection \<open>Joining fields\<close>

text \<open>The scalar string made of the given fields, \<^verbatim>\<open>'|'.join(fields)\<close> for \<open>c = |\<close>.\<close>

fun join_str :: "char \<Rightarrow> string list \<Rightarrow> string" where
  "join_str c [] = []"
| "join_str c [f] = f"
| "join_str c (f # f' # fs) = f @ c # join_str c (f' # fs)"

subsection \<open>A sample environment and document\<close>

text \<open>
  Concrete values for the worked examples below. The conversions are tables over the
  strings and values the examples use.
\<close>

definition sample_ext :: ext where
  "sample_ext =
     \<lparr>STRAIGHT = ''signage/indicator_lights/indicator_lights_floor'',
      CORNER = ''signage/indicator_lights/indicator_lights_corner_floor'',
      py_float = (\<lambda>s. if s = ''0.25'' then Some (1 / 4)
                      else if s = ''0.5'' then Some (1 / 2)
                      else if s = ''0'' then Some 0
                      else if s = ''50'' then Some 50
                      else None),
      conv_bool = (\<lambda>s d. if s = ''1'' then True else if s = ''0'' then False else d),
      vec_from_str = (\<lambda>s. if s = ''0 0 1'' then Vec 0 0 1
                           else if s = ''1 0 0'' then Vec 1 0 0
                           else if s = ''-8 -40 0'' then Vec (- 8) (- 40) 0
                           else if s = ''-8 40 0'' then Vec (- 8) 40 0
                           else if s = ''8 40 0'' then Vec 8 40 0
                           else if s = ''8 -40 0'' then Vec 8 (- 40) 0
                           else Vec 0 0 0),
      py_str = (\<lambda>v. case v of
                   PStr s \<Rightarrow> s
                 | PInt i \<Rightarrow> (if i = 1 then ''1'' else if i = 3 then ''3'' else ''5'')
                 | PFloat r \<Rightarrow> (if r = 1 / 4 then ''0.25'' else if r = 1 / 2 then ''0.5'' else ''1.0'')
                 | PVec u \<Rightarrow> (if u = Vec 0 (- 32) 0 then ''0 -32 0''
                              else if u = Vec 0 (- 16) 0 then ''0 -16 0''
                              else if u = Vec 0 16 0 then ''0 16 0''
                              else ''0 0 0'')),
      vec_join = (\<lambda>delim u.
                   (if vec_x u < 0 then ''-8'' else ''8'') @ delim @
                   (if vec_y u = - 8 then ''-8'' else if vec_y u = 8 then ''8''
                    else if vec_y u = - 24 then ''-24'' else if vec_y u = 24 then ''24''
                    else if vec_y u < 0 then ''-40'' else ''40'') @ delim @ ''0''),
      overlay_bounds = (\<lambda>e. (Vec 0 (- 40) (- 8), Vec 0 40 8)),
      long_axis = (\<lambda>s. AxisY),
      seed = (\<lambda>s. 10 ## 60 ## 70 ## 20 ## sconst 0)\<rparr>"

definition sample_over :: entity where
  "sample_over =
     [''origin'' \<mapsto> ''0 0 0'',
      ''basisNormal'' \<mapsto> ''1 0 0'',
      ''angles'' \<mapsto> ''0 0 0'',
      ''material'' \<mapsto> ''signage/indicator_lights/indicator_lights_floor'',
      ''uv0'' \<mapsto> ''-8 -40 0'',
      ''uv1'' \<mapsto> ''-8 40 0'',
      ''uv2'' \<mapsto> ''8 40 0'',
      ''uv3'' \<mapsto> ''8 -40 0'',
      ''targetname'' \<mapsto> ''ant1'']"

definition sample_doc :: vmf where
  "sample_doc = \<lparr>store = (\<lambda>h. if h = 0 then sample_over else Map.empty), next_id = 1, entities = [0]\<rparr>"

text \<open>The same overlay lying on a floor.\<close>

definition floor_doc :: vmf where
  "floor_doc =
     \<lparr>store = (\<lambda>h. if h = 0 then sample_over(''basisNormal'' \<mapsto> ''0 0 1'') else Map.empty),
      next_id = 1, entities = [0]\<rparr>"

definition intact_tex :: AntTex where
  "intact_tex = \<lparr>texture = ''ant/straight'', scale = 1 / 4, static = False\<rparr>"

definition broken_tex :: AntTex where
  "broken_tex = \<lparr>texture = ''ant/straight_broken'', scale = 1 / 2, static = True\<rparr>"

definition sample_conf :: AntType where
  "sample_conf = AntType_init [intact_tex] [intact_tex] [broken_tex] [broken_tex] 50"

definition sample_style :: style_prop where
  "sample_style =
     [(''broken_chance'', Scalar ''0''),
      (''straight'', Scalar ''0.5|ant/straight''),
      (''broken_straight'', Scalar ''ant/straight_broken''),
      (''broken_corner'', Block [(''tex'', ''ant/corner_broken'')])]"

subsection \<open>Changes to the document\<close>

text \<open>
  The document with one more entity: a new object holding the given fields, added to the
  document's entities.
\<close>

definition with_section :: "vmf \<Rightarrow> entity \<Rightarrow> vmf" where
  "with_section d e =
     d\<lparr>store := (store d)(next_id d := e), next_id := Suc (next_id d),
       entities := entities d @ [next_id d]\<rparr>"

text \<open>
  The document with the given entities added, one after the other.
\<close>

definition extend :: "vmf \<Rightarrow> entity list \<Rightarrow> vmf" where
  "extend d cls = fold (\<lambda>c d'. with_section d' c) cls d"

text \<open>
  A change to a document: new entities added, the fields of the overlay replaced, and
  the overlay taken out of the document or not.
\<close>

definition doc_change :: "vmf \<Rightarrow> nat \<Rightarrow> entity \<Rightarrow> entity list \<Rightarrow> bool \<Rightarrow> vmf" where
  "doc_change d over e cls removed =
     (let d1 = extend d cls;
          d2 = d1\<lparr>store := (store d1)(over := e)\<rparr>
      in if removed then ent_remove d2 over else d2)"

text \<open>
  The loop body seen from the overlay's fields alone: the section it makes is appended
  to the list of sections made so far.
\<close>

definition section_plan ::
  "ext \<Rightarrow> entity \<Rightarrow> AntTex list \<Rightarrow> AntTex list \<Rightarrow> vec \<Rightarrow> axis \<Rightarrow> entity list consumer" where
  "section_plan X ov mats broken_mats mo ax r s =
     (let cl = section_fields X mo ax (start_of r) (end_of r) ov in
      case choice (if tag_of r then broken_mats else mats) (fst s) of
        Inl e \<Rightarrow> (Some e, fst s, snd s @ [cl])
      | Inr (t, g') \<Rightarrow> (None, g', snd s @ [AntTex_apply X t cl]))"

text \<open>
  The outcome of \<^verbatim>\<open>random.choice(mats).apply(over)\<close> as a change to the document.
\<close>

definition choose_outcome ::
  "ext \<Rightarrow> AntTex list \<Rightarrow> entity \<Rightarrow> rng \<Rightarrow> error option \<times> rng \<times> entity \<times> entity list \<times> bool" where
  "choose_outcome X mats ov g =
     (case choice mats g of
        Inl e \<Rightarrow> (Some e, g, ov, [], False)
      | Inr (t, g') \<Rightarrow> (None, g', AntTex_apply X t ov, [], False))"

text \<open>
  The outcome of a call as a function of the overlay's fields and the configurations:
  the exception if any, the stream left behind, the overlay's new fields, the sections
  made, and whether the overlay is removed.
\<close>

definition style_outcome ::
  "ext \<Rightarrow> entity \<Rightarrow> AntType \<Rightarrow> AntType option
     \<Rightarrow> error option \<times> rng \<times> entity \<times> entity list \<times> bool" where
  "style_outcome X ov conf floor_conf =
     (let g = seed X (ent_get ov ''origin'') in
      case classify X ov (selected_conf X ov conf floor_conf) of
        Inl e \<Rightarrow> (Some e, g, ov, [], False)
      | Inr (c, mats, broken_mats) \<Rightarrow>
          if broken_chance c \<noteq> 0 then
            (let len = overlay_length X ov;
                 long_ax = long_axis X (ent_get ov ''angles'')
             in if len \<le> 48 then
                  choose_outcome X
                    (if fst (trial (broken_chance c) g) then broken_mats else mats) ov (stl g)
                else
                  (case iterate_antline
                          (section_plan X ov mats broken_mats
                             (min_origin_of X ov long_ax len) long_ax)
                          (Finite (of_int \<lfloor>len / 16\<rfloor>)) (broken_chance c) (g, []) of
                     (runs, err, g', cls) \<Rightarrow> (err, g', ov, cls, err = None)))
          else choose_outcome X mats ov g)"

text \<open>
  The error of line 151.
\<close>

definition not_an_antline :: "string \<Rightarrow> error" where
  "not_an_antline material = ValueError (CHR 0x22 # material @ CHR 0x22 # '' is not an antline!'')"





subsection \<open>More sample data\<close>

text \<open>The sample overlay with a material that is no antline.\<close>

definition odd_doc :: vmf where
  "odd_doc =
     \<lparr>store = (\<lambda>h. if h = 0 then sample_over(''material'' \<mapsto> ''tools/toolsnodraw'') else Map.empty),
      next_id = 1, entities = [0]\<rparr>"

text \<open>Another document holding an overlay with the same fields at another address.\<close>

definition other_doc :: vmf where
  "other_doc = \<lparr>store = (\<lambda>h. if h = 3 then sample_over else Map.empty), next_id = 5, entities = [3, 1]\<rparr>"


section \<open>Properties\<close>

subsection \<open>The run-length generator\<close>

lemma contiguous_Cons: "rs \<noteq> [] \<Longrightarrow> contiguous (r # rs) = (end_of r = start_of (hd rs) \<and> contiguous rs)"
  by (cases rs) auto

lemma alternating_Cons: "rs \<noteq> [] \<Longrightarrow> alternating (r # rs) = (tag_of r \<noteq> tag_of (hd rs) \<and> alternating rs)"
  by (cases rs) auto

lemma antline_loop_shape:
  "sorted_wrt (<) (a # is @ [n]) \<Longrightarrow> antline_loop chance body n is a t s = (rs, res) \<Longrightarrow>
     rs \<noteq> [] \<and> start_of (hd rs) = a \<and> tag_of (hd rs) = t \<and>
     contiguous rs \<and> alternating rs \<and> proper_runs rs \<and>
     (fst res = None \<longrightarrow> end_of (last rs) = n \<and> total_span rs = n - a)"
proof (induction "is" arbitrary: a t s rs res)
  case Nil
  then show ?case by (auto simp: proper_runs_def total_span_def)
next
  case (Cons i "is")
  obtain next_type g' where tr: "trial chance (fst s) = (next_type, g')"
    by (cases "trial chance (fst s)")
  from Cons.prems(1) have ai: "a < i" and chain_i: "sorted_wrt (<) (i # is @ [n])"
    and chain_a: "sorted_wrt (<) (a # is @ [n])" by auto
  show ?case
  proof (cases "next_type = t")
    case True
    with Cons.prems(2) tr have "antline_loop chance body n is a t (g', snd s) = (rs, res)"
      by simp
    from Cons.IH[OF chain_a this] show ?thesis .
  next
    case False
    obtain eo s' where b: "body (a, i, t) (g', snd s) = (eo, s')"
      by (cases "body (a, i, t) (g', snd s)")
    show ?thesis
    proof (cases eo)
      case (Some e)
      with Cons.prems(2) tr False b have "rs = [(a, i, t)]" "res = (Some e, s')" by auto
      with ai show ?thesis by (simp add: proper_runs_def)
    next
      case None
      obtain rs' res' where rec: "antline_loop chance body n is i next_type s' = (rs', res')"
        by (cases "antline_loop chance body n is i next_type s'")
      with Cons.prems(2) tr False b None have eq: "rs = (a, i, t) # rs'" "res = res'" by auto
      from Cons.IH[OF chain_i rec] have ih: "rs' \<noteq> []" "start_of (hd rs') = i" "tag_of (hd rs') = next_type"
        "contiguous rs'" "alternating rs'" "proper_runs rs'"
        "fst res' = None \<longrightarrow> end_of (last rs') = n \<and> total_span rs' = n - i" by auto
      with eq ai False show ?thesis
        by (auto simp: contiguous_Cons alternating_Cons proper_runs_def total_span_def)
    qed
  qed
qed

lemma range_chain: "1 \<le> n \<Longrightarrow> sorted_wrt (<) ((0::int) # [1 .. n - 1] @ [n])"
  by (auto simp: sorted_wrt_append)

lemma py_trunc_of_int: "py_trunc (of_int n) = n"
  by (simp add: py_trunc_def)

lemma iterate_antline_finite:
  "iterate_antline body (Finite r) chance s =
     antline_loop chance body (py_trunc r) [1 .. py_trunc r - 1] 0
       (fst (trial chance (fst s))) (snd (trial chance (fst s)), snd s)"
  by (simp add: iterate_antline_def py_int_def split_beta)

lemma ascending_runs: "contiguous rs \<Longrightarrow> proper_runs rs \<Longrightarrow> sorted_wrt (<) (map start_of rs)"
proof (induction rs rule: contiguous.induct)
  case (1 r r' rs)
  have "sorted_wrt (<) (start_of r # start_of r' # map start_of rs) =
          (start_of r < start_of r' \<and> sorted_wrt (<) (start_of r' # map start_of rs))"
    by (rule sorted_wrt2) (simp add: transp_on_def)
  with 1 show ?case by (simp add: proper_runs_def)
qed auto

lemma span_pos: "contiguous rs \<Longrightarrow> proper_runs rs \<Longrightarrow> rs \<noteq> [] \<Longrightarrow> start_of (hd rs) < end_of (last rs)"
  by (induction rs rule: contiguous.induct) (auto simp: proper_runs_def)

lemma cover_count:
  "contiguous rs \<Longrightarrow> proper_runs rs \<Longrightarrow> rs \<noteq> [] \<Longrightarrow>
   length (filter (covers k) rs) = (if start_of (hd rs) \<le> k \<and> k < end_of (last rs) then 1 else 0)"
proof (induction rs rule: contiguous.induct)
  case (1 r r' rs)
  then have ih: "length (filter (covers k) (r' # rs)) =
      (if start_of r' \<le> k \<and> k < end_of (last (r' # rs)) then 1 else 0)"
    by (simp add: proper_runs_def)
  from 1 have sp: "start_of r' < end_of (last (r' # rs))"
    using span_pos[of "r' # rs"] by (simp add: proper_runs_def)
  from 1 have hr: "start_of r < end_of r" "end_of r = start_of r'" by (simp_all add: proper_runs_def)
  have "length (filter (covers k) (r # r' # rs)) =
     (if covers k r then 1 else 0) + length (filter (covers k) (r' # rs))" by simp
  also have "\<dots> = (if start_of r \<le> k \<and> k < end_of (last (r' # rs)) then 1 else 0)"
    unfolding ih using sp hr by (auto simp: covers_def)
  finally show ?case by simp
qed (auto simp: covers_def)

lemma antline_loop_no_error:
  "(\<And>r s. fst (body r s) = None) \<Longrightarrow> fst (snd (antline_loop chance body n is a t s)) = None"
proof (induction "is" arbitrary: a t s)
  case Nil
  then show ?case by simp
next
  case (Cons i "is")
  obtain next_type g' where tr: "trial chance (fst s) = (next_type, g')"
    by (cases "trial chance (fst s)")
  obtain eo s' where b: "body (a, i, t) (g', snd s) = (eo, s')"
    by (cases "body (a, i, t) (g', snd s)")
  with Cons.prems[of "(a, i, t)" "(g', snd s)"] have eo: "eo = None" by simp
  show ?case using tr b eo Cons.IH[OF Cons.prems]
    by (simp add: split_beta)
qed

text \<open>
  C1. For every integer \<open>cell_count \<ge> 1\<close> and every \<open>chance_percent\<close>, whatever the
  stream holds, \<^verbatim>\<open>broken_antline_iter(cell_count, chance_percent)\<close> raises nothing and its
  runs are ordered by start ascending, contiguous, start at 0 and end at \<open>cell_count\<close>,
  every cell of \<open>[0, cell_count)\<close> lies in exactly one run and no other integer lies in
  any, the run lengths add up to \<open>cell_count\<close>, and no two adjacent runs carry the same
  tag.
\<close>

theorem broken_antline_iter_tiles:
  assumes "1 \<le> cell_count"
  shows "(let rs = fst (broken_antline_iter (Finite (of_int cell_count)) chance_percent g) in
           fst (snd (broken_antline_iter (Finite (of_int cell_count)) chance_percent g)) = None \<and>
           rs \<noteq> [] \<and>
           sorted_wrt (<) (map start_of rs) \<and>
           contiguous rs \<and> proper_runs rs \<and>
           start_of (hd rs) = 0 \<and> end_of (last rs) = cell_count \<and>
           (\<forall>k. length (filter (covers k) rs) = (if 0 \<le> k \<and> k < cell_count then 1 else 0)) \<and>
           total_span rs = cell_count \<and>
           alternating rs)"
proof -
  obtain t g1 where tr: "trial chance_percent g = (t, g1)" by (cases "trial chance_percent g")
  obtain rs res where lp: "antline_loop chance_percent (\<lambda>r s. (None, s)) cell_count
      [1 .. cell_count - 1] 0 t (g1, ()) = (rs, res)"
    by (cases "antline_loop chance_percent (\<lambda>r s. (None, s)) cell_count [1 .. cell_count - 1] 0 t (g1, ())")
  have noerr: "fst res = None"
    using antline_loop_no_error[of "\<lambda>r s. (None, s)" chance_percent cell_count "[1 .. cell_count - 1]" 0 t "(g1, ())"] lp
    by simp
  have rs: "fst (broken_antline_iter (Finite (of_int cell_count)) chance_percent g) = rs"
    using tr lp
    by (simp add: broken_antline_iter_def iterate_antline_finite py_trunc_of_int)
  have er: "fst (snd (broken_antline_iter (Finite (of_int cell_count)) chance_percent g)) = None"
    using tr lp noerr
    by (simp add: broken_antline_iter_def iterate_antline_finite py_trunc_of_int)
  from antline_loop_shape[OF range_chain[OF assms] lp] noerr
  have sh: "rs \<noteq> []" "start_of (hd rs) = 0" "contiguous rs" "alternating rs" "proper_runs rs"
    "end_of (last rs) = cell_count" "total_span rs = cell_count" by auto
  from cover_count[OF sh(3) sh(5) sh(1)] sh(2) sh(6)
  have cv: "\<forall>k. length (filter (covers k) rs) = (if 0 \<le> k \<and> k < cell_count then 1 else 0)" by simp
  from sh cv ascending_runs[OF sh(3) sh(5)] show ?thesis unfolding rs er Let_def by simp
qed

theorem broken_antline_iter_tiles_witness:
  "(1::int) \<le> 5 \<and>
   broken_antline_iter (Finite (of_int 5)) 50 (10 ## 60 ## 70 ## 20 ## sconst 0)
     = ([(0, 1, True), (1, 3, False), (3, 5, True)], None, sconst 0) \<and>
   contiguous (fst (broken_antline_iter (Finite (of_int 5)) 50 (10 ## 60 ## 70 ## 20 ## sconst 0))) \<and>
   alternating (fst (broken_antline_iter (Finite (of_int 5)) 50 (10 ## 60 ## 70 ## 20 ## sconst 0))) \<and>
   total_span (fst (broken_antline_iter (Finite (of_int 5)) 50 (10 ## 60 ## 70 ## 20 ## sconst 0))) = 5"
proof -
  have h: "(1::int) \<le> 5" by simp
  have v: "broken_antline_iter (Finite (of_int 5)) 50 (10 ## 60 ## 70 ## 20 ## sconst 0)
     = ([(0, 1, True), (1, 3, False), (3, 5, True)], None, sconst 0)"
    by (simp add: broken_antline_iter_def iterate_antline_finite trial_def randrange_def
        py_trunc_def upto.simps)
  from broken_antline_iter_tiles[OF h, of 50 "10 ## 60 ## 70 ## 20 ## sconst 0"] h v
  show ?thesis by (simp add: Let_def)
qed

text \<open>
  C10, as amended. For every finite \<open>dist \<le> 0\<close> and every chance,
  \<^verbatim>\<open>broken_antline_iter(dist, chance)\<close> raises nothing and yields exactly one run
  \<open>(0, int(dist), t)\<close>, where \<open>t\<close> is the one Bernoulli draw taken from the stream; for
  \<open>dist = 0\<close> the run is \<open>(0, 0, t)\<close>.
\<close>

theorem broken_antline_iter_finite_nonpositive:
  assumes "r \<le> 0"
  shows "broken_antline_iter (Finite r) chance g =
           ([(0, py_trunc r, fst (trial chance g))], None, stl g) \<and>
         py_int (Finite r) = Inr (py_trunc r) \<and>
         (r = 0 \<longrightarrow> broken_antline_iter (Finite r) chance g =
            ([(0, 0, fst (trial chance g))], None, stl g))"
proof -
  from assms have "py_trunc r \<le> 0" by (auto simp: py_trunc_def ceiling_le_zero)
  then have e: "[1 .. py_trunc r - 1] = []" by simp
  have a: "broken_antline_iter (Finite r) chance g =
           ([(0, py_trunc r, fst (trial chance g))], None, stl g)"
    by (simp add: broken_antline_iter_def iterate_antline_finite e trial_def randrange_def
        split_beta)
  have z: "py_trunc 0 = 0" by (simp add: py_trunc_def)
  from a z show ?thesis by (auto simp: py_int_def)
qed

theorem broken_antline_iter_finite_nonpositive_witness:
  "(0::real) \<le> 0 \<and>
   broken_antline_iter (Finite 0) 50 (10 ## sconst 0) = ([(0, 0, True)], None, sconst 0) \<and>
   (- 5 / 2 :: real) \<le> 0 \<and>
   broken_antline_iter (Finite (- 5 / 2)) 50 (60 ## sconst 0) = ([(0, - 2, False)], None, sconst 0)"
  using broken_antline_iter_finite_nonpositive[of 0 50 "10 ## sconst 0"]
    broken_antline_iter_finite_nonpositive[of "- 5 / 2" 50 "60 ## sconst 0"]
  by (simp add: py_trunc_def trial_def randrange_def)

text \<open>
  C10, as stated, fails: minus infinity is a float with \<open>dist \<le> 0\<close>, and there
  \<^verbatim>\<open>int(dist)\<close> raises \<^verbatim>\<open>OverflowError\<close> after the first draw, before any run is yielded.
\<close>

theorem broken_antline_iter_minus_infinity:
  "py_nonpos NegInf \<and>
   broken_antline_iter NegInf 50 (10 ## sconst 0) = ([], Some OverflowError, sconst 0)"
  by (simp add: py_nonpos_def broken_antline_iter_def iterate_antline_def py_int_def
      trial_def randrange_def)

subsection \<open>Parsing a texture entry\<close>

lemma split_str_nonempty: "split_str c s \<noteq> []"
  by (induction s) (auto split: list.splits)

lemma split_str_no_sep: "c \<notin> set s \<Longrightarrow> split_str c s = [s]"
  by (induction s) auto

lemma split_str_append: "c \<notin> set a \<Longrightarrow> split_str c (a @ c # b) = a # split_str c b"
  by (induction a) auto

lemma split_join:
  "fs \<noteq> [] \<Longrightarrow> list_all (\<lambda>f. c \<notin> set f) fs \<Longrightarrow> split_str c (join_str c fs) = fs"
proof (induction c fs rule: join_str.induct)
  case (1 c)
  then show ?case by simp
next
  case (2 c f)
  then show ?case by (simp add: split_str_no_sep)
next
  case (3 c f f' fs)
  then show ?case by (simp add: split_str_append)
qed

lemma AntTex_parse_fields:
  assumes "2 \<le> length fs" and "list_all (\<lambda>f. CHR ''|'' \<notin> set f) fs"
  shows "AntTex_parse X (Scalar (join_str CHR ''|'' fs)) =
           Inr \<lparr>texture = fs ! 1, scale = conv_float X (fs ! 0) (1 / 4),
                static = (''static'' \<in> set (drop 2 fs))\<rparr>"
proof -
  from assms(1) have ne: "fs \<noteq> []" by auto
  have sp: "split_str CHR ''|'' (join_str CHR ''|'' fs) = fs"
    by (rule split_join[OF ne assms(2)])
  show ?thesis
  proof (cases "length fs = 2")
    case True
    then show ?thesis unfolding AntTex_parse_def by (simp add: sp Let_def)
  next
    case False
    with assms(1) have "2 < length fs" by simp
    then show ?thesis unfolding AntTex_parse_def by (simp add: sp Let_def)
  qed
qed

lemma AntTex_parse_single:
  assumes "CHR ''|'' \<notin> set material"
  shows "AntTex_parse X (Scalar material) =
           Inr \<lparr>texture = material, scale = conv_float X ''0.25'' (1 / 4), static = False\<rparr>"
  unfolding AntTex_parse_def by (simp add: split_str_no_sep[OF assms] Let_def)

text \<open>
  C5. Given that Python reads \<^verbatim>\<open>0.25\<close> and \<^verbatim>\<open>0.5\<close> as those numbers, and for a material
  free of \<^verbatim>\<open>|\<close>: the scalar \<^verbatim>\<open>material\<close> parses to \<open>(material, 0.25, False)\<close>,
  \<^verbatim>\<open>0.5|material\<close> to \<open>(material, 0.5, False)\<close> and \<^verbatim>\<open>0.5|material|static\<close> to
  \<open>(material, 0.5, True)\<close>; for three or more fields, \<open>static\<close> holds exactly when the
  literal \<^verbatim>\<open>static\<close> is among the fields after the second; and the block with keys
  \<^verbatim>\<open>tex\<close>, \<^verbatim>\<open>scale\<close> (default 0.25) and \<^verbatim>\<open>static\<close> (default false) parses to the same
  record as the scalar string with the same material, scale and flag.
\<close>

theorem AntTex_parse_forms:
  assumes "CHR ''|'' \<notin> set material"
    and "conv_float X ''0.25'' (1 / 4) = 1 / 4"
    and "conv_float X ''0.5'' (1 / 4) = 1 / 2"
  shows
    "AntTex_parse X (Scalar material) =
        Inr \<lparr>texture = material, scale = 1 / 4, static = False\<rparr> \<and>
     AntTex_parse X (Scalar (''0.5|'' @ material)) =
        Inr \<lparr>texture = material, scale = 1 / 2, static = False\<rparr> \<and>
     AntTex_parse X (Scalar (''0.5|'' @ material @ ''|static'')) =
        Inr \<lparr>texture = material, scale = 1 / 2, static = True\<rparr> \<and>
     (\<forall>fs. 3 \<le> length fs \<and> list_all (\<lambda>f. CHR ''|'' \<notin> set f) fs \<longrightarrow>
        (\<exists>t. AntTex_parse X (Scalar (join_str CHR ''|'' fs)) = Inr t \<and>
             static t = (''static'' \<in> set (drop 2 fs)))) \<and>
     AntTex_parse X (Block [(''tex'', material)]) = AntTex_parse X (Scalar material) \<and>
     (\<forall>sc. CHR ''|'' \<notin> set sc \<longrightarrow>
        AntTex_parse X (Block [(''tex'', material), (''scale'', sc)]) =
        AntTex_parse X (Scalar (sc @ ''|'' @ material))) \<and>
     (\<forall>sc b. CHR ''|'' \<notin> set sc \<and> conv_bool X b False \<longrightarrow>
        AntTex_parse X (Block [(''tex'', material), (''scale'', sc), (''static'', b)]) =
        AntTex_parse X (Scalar (sc @ ''|'' @ material @ ''|static''))) \<and>
     (\<forall>sc b. CHR ''|'' \<notin> set sc \<and> \<not> conv_bool X b False \<longrightarrow>
        AntTex_parse X (Block [(''tex'', material), (''scale'', sc), (''static'', b)]) =
        AntTex_parse X (Scalar (sc @ ''|'' @ material)))"
proof -
  have one: "AntTex_parse X (Scalar material) =
        Inr \<lparr>texture = material, scale = 1 / 4, static = False\<rparr>"
    using AntTex_parse_single[OF assms(1), of X] assms(2) by simp
  have two: "AntTex_parse X (Scalar (''0.5|'' @ material)) =
        Inr \<lparr>texture = material, scale = 1 / 2, static = False\<rparr>"
    using AntTex_parse_fields[of "[''0.5'', material]" X] assms(1,3) by simp
  have three: "AntTex_parse X (Scalar (''0.5|'' @ material @ ''|static'')) =
        Inr \<lparr>texture = material, scale = 1 / 2, static = True\<rparr>"
    using AntTex_parse_fields[of "[''0.5'', material, ''static'']" X] assms(1,3) by simp
  have flags: "\<exists>t. AntTex_parse X (Scalar (join_str CHR ''|'' fs)) = Inr t \<and>
             static t = (''static'' \<in> set (drop 2 fs))"
    if "3 \<le> length fs \<and> list_all (\<lambda>f. CHR ''|'' \<notin> set f) fs" for fs
    using AntTex_parse_fields[of fs X] that by simp
  have b1: "AntTex_parse X (Block [(''tex'', material)]) =
        Inr \<lparr>texture = material, scale = 1 / 4, static = False\<rparr>"
    by (simp add: AntTex_parse_def prop_getitem_def prop_float_def prop_bool_def)
  have s2: "AntTex_parse X (Scalar (sc @ ''|'' @ material)) =
        Inr \<lparr>texture = material, scale = conv_float X sc (1 / 4), static = False\<rparr>"
    if "CHR ''|'' \<notin> set sc" for sc
    using AntTex_parse_fields[of "[sc, material]" X] assms(1) that by simp
  have s3: "AntTex_parse X (Scalar (sc @ ''|'' @ material @ ''|static'')) =
        Inr \<lparr>texture = material, scale = conv_float X sc (1 / 4), static = True\<rparr>"
    if "CHR ''|'' \<notin> set sc" for sc
    using AntTex_parse_fields[of "[sc, material, ''static'']" X] assms(1) that by simp
  have b2: "AntTex_parse X (Block [(''tex'', material), (''scale'', sc)]) =
        Inr \<lparr>texture = material, scale = conv_float X sc (1 / 4), static = False\<rparr>" for sc
    by (simp add: AntTex_parse_def prop_getitem_def prop_float_def prop_bool_def)
  have b3: "AntTex_parse X (Block [(''tex'', material), (''scale'', sc), (''static'', b)]) =
        Inr \<lparr>texture = material, scale = conv_float X sc (1 / 4),
             static = conv_bool X b False\<rparr>" for sc b
    by (simp add: AntTex_parse_def prop_getitem_def prop_float_def prop_bool_def)
  have e2: "\<forall>sc. CHR ''|'' \<notin> set sc \<longrightarrow>
        AntTex_parse X (Block [(''tex'', material), (''scale'', sc)]) =
        AntTex_parse X (Scalar (sc @ ''|'' @ material))"
    using s2 b2 by simp
  have e3: "\<forall>sc b. CHR ''|'' \<notin> set sc \<and> conv_bool X b False \<longrightarrow>
        AntTex_parse X (Block [(''tex'', material), (''scale'', sc), (''static'', b)]) =
        AntTex_parse X (Scalar (sc @ ''|'' @ material @ ''|static''))"
    using s3 b3 by simp
  have e4: "\<forall>sc b. CHR ''|'' \<notin> set sc \<and> \<not> conv_bool X b False \<longrightarrow>
        AntTex_parse X (Block [(''tex'', material), (''scale'', sc), (''static'', b)]) =
        AntTex_parse X (Scalar (sc @ ''|'' @ material))"
    using s2 b3 by simp
  have e1: "AntTex_parse X (Block [(''tex'', material)]) = AntTex_parse X (Scalar material)"
    using one b1 by simp
  from one two three flags e1 e2 e3 e4 show ?thesis by blast
qed

theorem AntTex_parse_forms_witness:
  "CHR ''|'' \<notin> set ''ant/straight'' \<and>
   conv_float sample_ext ''0.25'' (1 / 4) = 1 / 4 \<and>
   conv_float sample_ext ''0.5'' (1 / 4) = 1 / 2 \<and>
   conv_bool sample_ext ''1'' False \<and>
   AntTex_parse sample_ext (Scalar ''0.5|ant/straight|static'') =
     Inr \<lparr>texture = ''ant/straight'', scale = 1 / 2, static = True\<rparr> \<and>
   AntTex_parse sample_ext (Block [(''tex'', ''ant/straight''), (''scale'', ''0.5''), (''static'', ''1'')]) =
     Inr \<lparr>texture = ''ant/straight'', scale = 1 / 2, static = True\<rparr>"
proof -
  have h1: "CHR ''|'' \<notin> set ''ant/straight''" by simp
  have h2: "conv_float sample_ext ''0.25'' (1 / 4) = 1 / 4"
    by (simp add: conv_float_def sample_ext_def)
  have h3: "conv_float sample_ext ''0.5'' (1 / 4) = 1 / 2"
    by (simp add: conv_float_def sample_ext_def)
  have h4: "conv_bool sample_ext ''1'' False" by (simp add: sample_ext_def)
  have h5: "CHR ''|'' \<notin> set ''0.5''" by simp
  from AntTex_parse_forms[OF h1 h2 h3] have
    "AntTex_parse sample_ext (Scalar (''0.5|'' @ ''ant/straight'' @ ''|static'')) =
        Inr \<lparr>texture = ''ant/straight'', scale = 1 / 2, static = True\<rparr>"
    and "AntTex_parse sample_ext
           (Block [(''tex'', ''ant/straight''), (''scale'', ''0.5''), (''static'', ''1'')]) =
         AntTex_parse sample_ext (Scalar (''0.5'' @ ''|'' @ ''ant/straight'' @ ''|static''))"
    using h4 h5 by blast+
  with h1 h2 h3 h4 show ?thesis by simp
qed

text \<open>
  Every scalar string parses, and to what: \<^verbatim>\<open>str.split\<close> never returns an empty list,
  so the unpacking \<^verbatim>\<open>[tex] = vals\<close> is reached with exactly one field and cannot fail. A
  single field is the texture, with the default scale; of two or more fields the first
  is the scale, the second the texture and the rest the flags. Every scalar string
  therefore has exactly one field in the texture position, and no scalar input makes
  \<^verbatim>\<open>AntTex.parse\<close> raise.
\<close>

lemma AntTex_parse_scalar_exact:
  "\<exists>f fs. split_str CHR ''|'' v = f # fs \<and>
     AntTex_parse X (Scalar v) =
       Inr (case fs of
              [] \<Rightarrow> \<lparr>texture = f, scale = conv_float X ''0.25'' (1 / 4), static = False\<rparr>
            | tex # opts \<Rightarrow>
                \<lparr>texture = tex, scale = conv_float X f (1 / 4),
                 static = (''static'' \<in> set opts)\<rparr>)"
proof -
  obtain f fs where sp: "split_str CHR ''|'' v = f # fs"
    using split_str_nonempty[of "CHR ''|''" v] by (cases "split_str CHR ''|'' v") auto
  have "AntTex_parse X (Scalar v) =
       Inr (case fs of
              [] \<Rightarrow> \<lparr>texture = f, scale = conv_float X ''0.25'' (1 / 4), static = False\<rparr>
            | tex # opts \<Rightarrow>
                \<lparr>texture = tex, scale = conv_float X f (1 / 4),
                 static = (''static'' \<in> set opts)\<rparr>)"
  proof (cases fs)
    case Nil
    then show ?thesis unfolding AntTex_parse_def by (simp add: sp Let_def)
  next
    case (Cons tex opts)
    then show ?thesis unfolding AntTex_parse_def by (cases opts) (simp_all add: sp Let_def)
  qed
  with sp show ?thesis by blast
qed

subsection \<open>Constructing a style\<close>

lemma AntType_init_fields:
  "tex_straight (AntType_init ts tc bs bc ch) = ts"
  "tex_corner (AntType_init ts tc bs bc ch) = tc"
  "broken_straight (AntType_init ts tc bs bc ch) = (if ch = 0 then [] else bs)"
  "broken_corner (AntType_init ts tc bs bc ch) = (if ch = 0 then [] else bc)"
  "broken_chance (AntType_init ts tc bs bc ch) = ch"
  by (simp_all add: AntType_init_def)

lemma AntType_parse_init:
  "AntType_parse X prop = Inr t \<Longrightarrow>
   \<exists>ts tc bs bc. parse_all X (find_all prop ''broken_straight'') = Inr bs \<and>
      parse_all X (find_all prop ''broken_corner'') = Inr bc \<and>
      t = AntType_init ts tc bs bc (style_float X prop ''broken_chance'' 0)"
  by (auto simp: AntType_parse_def Let_def split: sum.splits)

text \<open>
  C4. An \<^verbatim>\<open>AntType\<close> constructed with \<open>broken_chance = 0\<close> has both broken lists empty,
  whatever lists were supplied; with \<open>broken_chance \<noteq> 0\<close> the supplied lists are kept.
  The same holds of every style \<^verbatim>\<open>AntType.parse\<close> returns, where the supplied lists are
  the parsed \<^verbatim>\<open>broken_straight\<close> and \<^verbatim>\<open>broken_corner\<close> entries.
\<close>

theorem broken_lists_forced_empty:
  "(broken_chance' = 0 \<longrightarrow>
      broken_straight (AntType_init tex_straight' tex_corner' broken_straight' broken_corner' broken_chance') = [] \<and>
      broken_corner (AntType_init tex_straight' tex_corner' broken_straight' broken_corner' broken_chance') = []) \<and>
   (broken_chance' \<noteq> 0 \<longrightarrow>
      broken_straight (AntType_init tex_straight' tex_corner' broken_straight' broken_corner' broken_chance') = broken_straight' \<and>
      broken_corner (AntType_init tex_straight' tex_corner' broken_straight' broken_corner' broken_chance') = broken_corner') \<and>
   broken_chance (AntType_init tex_straight' tex_corner' broken_straight' broken_corner' broken_chance') = broken_chance' \<and>
   (\<forall>t. AntType_parse X prop = Inr t \<longrightarrow>
      broken_chance t = style_float X prop ''broken_chance'' 0 \<and>
      (broken_chance t = 0 \<longrightarrow> broken_straight t = [] \<and> broken_corner t = []) \<and>
      (broken_chance t \<noteq> 0 \<longrightarrow>
         parse_all X (find_all prop ''broken_straight'') = Inr (broken_straight t) \<and>
         parse_all X (find_all prop ''broken_corner'') = Inr (broken_corner t)))"
proof -
  have "broken_chance t = style_float X prop ''broken_chance'' 0 \<and>
      (broken_chance t = 0 \<longrightarrow> broken_straight t = [] \<and> broken_corner t = []) \<and>
      (broken_chance t \<noteq> 0 \<longrightarrow>
         parse_all X (find_all prop ''broken_straight'') = Inr (broken_straight t) \<and>
         parse_all X (find_all prop ''broken_corner'') = Inr (broken_corner t))"
    if "AntType_parse X prop = Inr t" for t
    using AntType_parse_init[OF that] by (auto simp: AntType_init_fields)
  then show ?thesis by (simp add: AntType_init_fields)
qed

theorem broken_lists_forced_empty_witness:
  "AntType_parse sample_ext sample_style =
     Inr \<lparr>tex_straight = [\<lparr>texture = ''ant/straight'', scale = 1 / 2, static = False\<rparr>],
          tex_corner = [], broken_corner = [], broken_straight = [], broken_chance = 0\<rparr> \<and>
   find_all sample_style ''broken_straight'' = [Scalar ''ant/straight_broken''] \<and>
   broken_straight (AntType_init [] [] [broken_tex] [broken_tex] 0) = [] \<and>
   broken_straight (AntType_init [] [] [broken_tex] [broken_tex] 50) = [broken_tex]"
proof -
  have p: "AntType_parse sample_ext sample_style =
     Inr \<lparr>tex_straight = [\<lparr>texture = ''ant/straight'', scale = 1 / 2, static = False\<rparr>],
          tex_corner = [], broken_corner = [], broken_straight = [], broken_chance = 0\<rparr>"
    by (simp add: AntType_parse_def sample_style_def find_all_def style_float_def
        AntTex_parse_def conv_float_def sample_ext_def AntType_init_def prop_getitem_def
        prop_float_def prop_bool_def)
  have f: "find_all sample_style ''broken_straight'' = [Scalar ''ant/straight_broken'']"
    by (simp add: sample_style_def find_all_def)
  from broken_lists_forced_empty[of 0 "[]" "[]" "[broken_tex]" "[broken_tex]" sample_ext sample_style]
    broken_lists_forced_empty[of 50 "[]" "[]" "[broken_tex]" "[broken_tex]" sample_ext sample_style]
    p f
  show ?thesis by simp
qed


subsection \<open>Applying a texture\<close>

text \<open>
  C7. \<^verbatim>\<open>AntTex.apply\<close> sets \<^verbatim>\<open>material\<close> to the entry's texture and \<^verbatim>\<open>endu\<close> to the
  entry's scale (as \<^verbatim>\<open>str\<close> renders it); a static entry removes \<^verbatim>\<open>targetname\<close>, a
  non-static one leaves it as it was; every other field is unchanged.
\<close>

theorem AntTex_apply_frame:
  "AntTex_apply X self overlay ''material'' = Some (texture self) \<and>
   AntTex_apply X self overlay ''endu'' = Some (py_str X (PFloat (scale self))) \<and>
   (static self \<longrightarrow> AntTex_apply X self overlay ''targetname'' = None) \<and>
   (\<not> static self \<longrightarrow> AntTex_apply X self overlay ''targetname'' = overlay ''targetname'') \<and>
   (\<forall>key. key \<noteq> ''material'' \<and> key \<noteq> ''endu'' \<and> key \<noteq> ''targetname'' \<longrightarrow>
      AntTex_apply X self overlay key = overlay key)"
  by (simp add: AntTex_apply_def ent_set_def ent_del_def to_str_def Let_def)

theorem AntTex_apply_frame_witness:
  "static broken_tex \<and> \<not> static intact_tex \<and>
   sample_over ''targetname'' = Some ''ant1'' \<and>
   AntTex_apply sample_ext broken_tex sample_over ''targetname'' = None \<and>
   AntTex_apply sample_ext intact_tex sample_over ''targetname'' = Some ''ant1'' \<and>
   AntTex_apply sample_ext intact_tex sample_over ''material'' = Some ''ant/straight'' \<and>
   AntTex_apply sample_ext intact_tex sample_over ''endu'' = Some ''0.25'' \<and>
   ''angles'' \<noteq> ''material'' \<and> ''angles'' \<noteq> ''endu'' \<and> ''angles'' \<noteq> ''targetname'' \<and>
   AntTex_apply sample_ext broken_tex sample_over ''angles'' = sample_over ''angles''"
proof -
  have h: "static broken_tex" "\<not> static intact_tex" "sample_over ''targetname'' = Some ''ant1''"
    "texture intact_tex = ''ant/straight''"
    "py_str sample_ext (PFloat (scale intact_tex)) = ''0.25''"
    by (simp_all add: broken_tex_def intact_tex_def sample_over_def sample_ext_def)
  from AntTex_apply_frame[of sample_ext broken_tex sample_over]
    AntTex_apply_frame[of sample_ext intact_tex sample_over] h
  show ?thesis by simp
qed

subsection \<open>The branches of style_antline\<close>

lemma style_antline_raises:
  "classify X (store d over) (selected_conf X (store d over) conf floor_conf) = Inl e \<Longrightarrow>
   style_antline X over conf floor_conf (g, d) = (Some e, seed X (ent_get (store d over) ''origin''), d)"
  by (simp add: style_antline_def Let_def)

lemma style_antline_direct:
  "classify X (store d over) (selected_conf X (store d over) conf floor_conf) = Inr (c, mats, broken_mats) \<Longrightarrow>
   broken_chance c = 0 \<Longrightarrow>
   style_antline X over conf floor_conf (g, d) =
     choose_apply X mats over (seed X (ent_get (store d over) ''origin''), d)"
  by (simp add: style_antline_def Let_def)

lemma style_antline_short:
  "classify X (store d over) (selected_conf X (store d over) conf floor_conf) = Inr (c, mats, broken_mats) \<Longrightarrow>
   broken_chance c \<noteq> 0 \<Longrightarrow> overlay_length X (store d over) \<le> 48 \<Longrightarrow>
   style_antline X over conf floor_conf (g, d) =
     choose_apply X
       (if fst (trial (broken_chance c) (seed X (ent_get (store d over) ''origin'')))
        then broken_mats else mats) over
       (stl (seed X (ent_get (store d over) ''origin'')), d)"
  by (simp add: style_antline_def Let_def split_beta randrange_def trial_def)

lemma style_antline_fragment:
  assumes "classify X (store d over) (selected_conf X (store d over) conf floor_conf) = Inr (c, mats, broken_mats)"
    and "broken_chance c \<noteq> 0" and "48 < overlay_length X (store d over)"
    and "iterate_antline
     (make_section X over mats broken_mats
        (min_origin_of X (store d over) (long_axis X (ent_get (store d over) ''angles''))
           (overlay_length X (store d over)))
        (long_axis X (ent_get (store d over) ''angles'')))
     (Finite (of_int \<lfloor>overlay_length X (store d over) / 16\<rfloor>)) (broken_chance c)
     (seed X (ent_get (store d over) ''origin''), d) = (runs, err, g', d')"
  shows "style_antline X over conf floor_conf (g, d) =
     (case err of Some e \<Rightarrow> (Some e, g', d') | None \<Rightarrow> (None, g', ent_remove d' over))"
proof -
  from assms(3) have long: "\<not> overlay_length X (store d over) \<le> 48" by simp
  show ?thesis
    unfolding style_antline_def Let_def snd_conv assms(1) sum.case prod.case
    using assms(2) long assms(4) by (simp split: option.splits)
qed

subsection \<open>The sections made by the loop\<close>

lemma choice_cases:
  "(xs = [] \<and> choice xs g = Inl IndexError) \<or>
   (xs \<noteq> [] \<and> (\<exists>t. t \<in> set xs \<and> choice xs g = Inr (t, stl g)))"
  by (cases "xs = []") (auto simp: choice_def randrange_def)

lemma choose_apply_cases:
  "(mats = [] \<and> choose_apply X mats h (g, d) = (Some IndexError, g, d)) \<or>
   (mats \<noteq> [] \<and> (\<exists>t. t \<in> set mats \<and>
       choose_apply X mats h (g, d) = (None, stl g, ent_update d h (AntTex_apply X t))))"
  using choice_cases[of mats g] by (auto simp: choose_apply_def)

lemma make_section_cases:
  "((if b then broken_mats else mats) = [] \<and>
      fst (make_section X over mats broken_mats mo ax (a, e, b) (g, d)) = Some IndexError) \<or>
   ((if b then broken_mats else mats) \<noteq> [] \<and>
      (\<exists>t. t \<in> set (if b then broken_mats else mats) \<and>
         make_section X over mats broken_mats mo ax (a, e, b) (g, d) =
           (None, stl g,
            with_section d (AntTex_apply X t (section_fields X mo ax a e (store d over))))))"
proof -
  let ?d3 = "ent_update (add_ent (snd (ent_copy d over)) (next_id d)) (next_id d)
               (section_fields X mo ax a e)"
  have ms: "make_section X over mats broken_mats mo ax (a, e, b) (g, d) =
      choose_apply X (if b then broken_mats else mats) (next_id d) (g, ?d3)"
    by (simp add: make_section_def Let_def ent_copy_def)
  have upd: "ent_update ?d3 (next_id d) (AntTex_apply X t) =
      with_section d (AntTex_apply X t (section_fields X mo ax a e (store d over)))" for t
    by (simp add: ent_update_def add_ent_def ent_copy_def with_section_def)
  from choose_apply_cases[of "if b then broken_mats else mats" X "next_id d" g ?d3]
  show ?thesis unfolding ms upd by auto
qed





subsection \<open>The fields of a section\<close>







subsection \<open>The loop does not depend on the document\<close>

lemma extend_simps:
  "extend d [] = d"
  "extend d (cls @ [c]) = with_section (extend d cls) c"
  "next_id (extend d cls) = next_id d + length cls"
  by (induction cls arbitrary: d) (simp_all add: extend_def with_section_def)

lemma store_extend: "h < next_id d \<Longrightarrow> store (extend d cls) h = store d h"
proof (induction cls rule: rev_induct)
  case Nil
  then show ?case by (simp add: extend_simps)
next
  case (snoc c cls)
  then show ?case by (simp add: extend_simps with_section_def)
qed

lemma make_section_plan:
  assumes "over < next_id d"
  shows "make_section X over mats broken_mats mo ax r (g, extend d acc) =
     (case section_plan X (store d over) mats broken_mats mo ax r (g, acc) of
        (eo, g', acc') \<Rightarrow> (eo, g', extend d acc'))"
proof -
  obtain a e b where r: "r = (a, e, b)" by (cases r)
  let ?D = "extend d acc"
  have ov: "store ?D over = store d over" by (rule store_extend[OF assms])
  let ?d3 = "ent_update (add_ent (snd (ent_copy ?D over)) (next_id ?D)) (next_id ?D)
               (section_fields X mo ax a e)"
  have ms: "make_section X over mats broken_mats mo ax (a, e, b) (g, ?D) =
      choose_apply X (if b then broken_mats else mats) (next_id ?D) (g, ?d3)"
    by (simp add: make_section_def Let_def ent_copy_def)
  have d3: "?d3 = with_section ?D (section_fields X mo ax a e (store d over))"
    by (simp add: ent_update_def add_ent_def ent_copy_def with_section_def ov)
  have upd: "ent_update ?d3 (next_id ?D) (AntTex_apply X t) =
      with_section ?D (AntTex_apply X t (section_fields X mo ax a e (store d over)))" for t
    by (simp add: ent_update_def add_ent_def ent_copy_def with_section_def ov)
  show ?thesis
  proof (cases "choice (if b then broken_mats else mats) g")
    case (Inl er)
    have "make_section X over mats broken_mats mo ax (a, e, b) (g, ?D) = (Some er, g, ?d3)"
      unfolding ms by (simp add: choose_apply_def Inl)
    moreover have "section_plan X (store d over) mats broken_mats mo ax (a, e, b) (g, acc) =
        (Some er, g, acc @ [section_fields X mo ax a e (store d over)])"
      by (simp add: section_plan_def Let_def Inl)
    ultimately show ?thesis unfolding r d3 by (simp add: extend_simps(2))
  next
    case (Inr p)
    obtain t g' where p: "p = (t, g')" by (cases p)
    have "make_section X over mats broken_mats mo ax (a, e, b) (g, ?D) =
        (None, g', ent_update ?d3 (next_id ?D) (AntTex_apply X t))"
      unfolding ms by (simp add: choose_apply_def Inr p)
    moreover have "section_plan X (store d over) mats broken_mats mo ax (a, e, b) (g, acc) =
        (None, g', acc @ [AntTex_apply X t (section_fields X mo ax a e (store d over))])"
      by (simp add: section_plan_def Let_def Inr p)
    ultimately show ?thesis unfolding r upd by (simp add: extend_simps(2))
  qed
qed

lemma antline_loop_plan:
  assumes "over < next_id d"
  shows "antline_loop chance (make_section X over mats broken_mats mo ax) n is a t (g, extend d acc) =
     (case antline_loop chance (section_plan X (store d over) mats broken_mats mo ax) n is a t (g, acc) of
        (rs, eo, g', acc') \<Rightarrow> (rs, eo, g', extend d acc'))"
proof (induction "is" arbitrary: a t g acc)
  case Nil
  show ?case by (simp add: make_section_plan[OF assms] split: prod.splits)
next
  case (Cons i "is")
  obtain next_type g1 where tr: "trial chance g = (next_type, g1)" by (cases "trial chance g")
  show ?case
  proof (cases "next_type = t")
    case True
    with tr Cons.IH[of a t g1 acc] show ?thesis by simp
  next
    case False
    obtain eo g2 acc2 where sp: "section_plan X (store d over) mats broken_mats mo ax (a, i, t) (g1, acc) = (eo, g2, acc2)"
      by (cases "section_plan X (store d over) mats broken_mats mo ax (a, i, t) (g1, acc)")
    then have ms: "make_section X over mats broken_mats mo ax (a, i, t) (g1, extend d acc) = (eo, g2, extend d acc2)"
      by (simp add: make_section_plan[OF assms])
    show ?thesis
    proof (cases eo)
      case None
      with tr False sp ms Cons.IH[of i next_type g2 acc2] show ?thesis
        by (simp split: prod.splits)
    next
      case (Some e)
      with tr False sp ms show ?thesis by simp
    qed
  qed
qed

subsection \<open>Determinism\<close>

lemma doc_change_same: "doc_change d over (store d over) [] False = d"
  by (simp add: doc_change_def extend_simps Let_def)

lemma doc_change_update: "ent_update d over f = doc_change d over (f (store d over)) [] False"
  by (simp add: doc_change_def extend_simps Let_def ent_update_def)

lemma doc_change_extend:
  assumes "over < next_id d"
  shows "extend d cls = doc_change d over (store d over) cls False"
    and "ent_remove (extend d cls) over = doc_change d over (store d over) cls True"
proof -
  have "store (extend d cls) over = store d over" by (rule store_extend[OF assms])
  then have "(store (extend d cls))(over := store d over) = store (extend d cls)"
    by (metis fun_upd_triv)
  then show "extend d cls = doc_change d over (store d over) cls False"
    and "ent_remove (extend d cls) over = doc_change d over (store d over) cls True"
    by (simp_all add: doc_change_def Let_def)
qed

lemma choose_apply_outcome:
  "choose_apply X mats over (g, d) =
     (case choose_outcome X mats (store d over) g of
        (err, g', e, cls, rm) \<Rightarrow> (err, g', doc_change d over e cls rm))"
  by (auto simp: choose_apply_def choose_outcome_def doc_change_same doc_change_update[symmetric]
      split: sum.splits)

lemma iterate_antline_plan:
  assumes "over < next_id d"
  shows "iterate_antline (make_section X over mats broken_mats mo ax) (Finite r) chance (g, d) =
     (case iterate_antline (section_plan X (store d over) mats broken_mats mo ax) (Finite r) chance (g, []) of
        (rs, eo, g', cls) \<Rightarrow> (rs, eo, g', extend d cls))"
  using antline_loop_plan[OF assms, of chance X mats broken_mats mo ax _ _ _ _ _ "[]"]
  by (simp add: iterate_antline_finite extend_simps)

lemma style_antline_outcome:
  assumes "over < next_id d"
  shows "style_antline X over conf floor_conf (g, d) =
     (case style_outcome X (store d over) conf floor_conf of
        (err, g', e, cls, rm) \<Rightarrow> (err, g', doc_change d over e cls rm))"
proof (cases "classify X (store d over) (selected_conf X (store d over) conf floor_conf)")
  case (Inl e)
  then show ?thesis
    by (simp add: style_antline_raises style_outcome_def doc_change_same)
next
  case (Inr p)
  obtain c mats broken_mats where p: "p = (c, mats, broken_mats)" by (cases p)
  note cl = Inr[unfolded p]
  show ?thesis
  proof (cases "broken_chance c = 0")
    case True
    then show ?thesis
      by (simp add: style_antline_direct[OF cl True] style_outcome_def cl choose_apply_outcome)
  next
    case nz: False
    show ?thesis
    proof (cases "overlay_length X (store d over) \<le> 48")
      case True
      then show ?thesis
        by (simp add: style_antline_short[OF cl nz True] style_outcome_def cl nz
            choose_apply_outcome Let_def)
    next
      case False
      then have long: "48 < overlay_length X (store d over)" by simp
      let ?ax = "long_axis X (ent_get (store d over) ''angles'')"
      let ?mo = "min_origin_of X (store d over) ?ax (overlay_length X (store d over))"
      let ?g = "seed X (ent_get (store d over) ''origin'')"
      obtain rs eo g' cls where pl: "iterate_antline
           (section_plan X (store d over) mats broken_mats ?mo ?ax)
           (Finite (of_int \<lfloor>overlay_length X (store d over) / 16\<rfloor>)) (broken_chance c) (?g, []) = (rs, eo, g', cls)"
        by (metis prod_cases4)
      then have it: "iterate_antline (make_section X over mats broken_mats ?mo ?ax)
           (Finite (of_int \<lfloor>overlay_length X (store d over) / 16\<rfloor>)) (broken_chance c) (?g, d) = (rs, eo, g', extend d cls)"
        by (simp add: iterate_antline_plan[OF assms])
      have so: "style_outcome X (store d over) conf floor_conf = (eo, g', store d over, cls, eo = None)"
        using cl nz False pl by (simp add: style_outcome_def Let_def)
      show ?thesis
        unfolding style_antline_fragment[OF cl nz long it] so
        by (cases eo) (simp_all add: doc_change_extend[OF assms, symmetric])
    qed
  qed
qed

text \<open>
  C2. \<^verbatim>\<open>style_antline\<close> reseeds the stream from the overlay's origin before anything is
  drawn, so its result does not depend on the state of the generator at the call. More:
  two calls with the same configurations, on overlays with the same fields in any two
  documents and from any two generator states, raise the same exception or none, leave
  the same stream, and make the same change to their documents: the same new fields of
  the overlay (so the same texture chosen), the same sections in the same order (so the
  same run pattern and textures), and the same removal.
\<close>

theorem style_antline_deterministic:
  "style_antline X over conf floor_conf (g, d) = style_antline X over conf floor_conf (g', d) \<and>
   (\<forall>d1 over1 d2 over2 g1 g2.
      over1 < next_id d1 \<and> over2 < next_id d2 \<and> store d1 over1 = store d2 over2 \<longrightarrow>
      (\<exists>err gout e cls removed.
         style_antline X over1 conf floor_conf (g1, d1) = (err, gout, doc_change d1 over1 e cls removed) \<and>
         style_antline X over2 conf floor_conf (g2, d2) = (err, gout, doc_change d2 over2 e cls removed)))"
proof -
  have a: "style_antline X over conf floor_conf (g, d) = style_antline X over conf floor_conf (g', d)"
    by (simp add: style_antline_def)
  have b: "\<exists>err gout e cls removed.
         style_antline X over1 conf floor_conf (g1, d1) = (err, gout, doc_change d1 over1 e cls removed) \<and>
         style_antline X over2 conf floor_conf (g2, d2) = (err, gout, doc_change d2 over2 e cls removed)"
    if h: "over1 < next_id d1 \<and> over2 < next_id d2 \<and> store d1 over1 = store d2 over2"
    for d1 over1 d2 over2 g1 g2
  proof -
    obtain err gout e cls rm where so: "style_outcome X (store d1 over1) conf floor_conf = (err, gout, e, cls, rm)"
      by (metis prod_cases5)
    from h have o1: "over1 < next_id d1" and o2: "over2 < next_id d2"
      and eq: "store d2 over2 = store d1 over1" by simp_all
    have "style_antline X over1 conf floor_conf (g1, d1) = (err, gout, doc_change d1 over1 e cls rm)"
      unfolding style_antline_outcome[OF o1] so by simp
    moreover have "style_antline X over2 conf floor_conf (g2, d2) = (err, gout, doc_change d2 over2 e cls rm)"
      unfolding style_antline_outcome[OF o2] eq so by simp
    ultimately show ?thesis by blast
  qed
  from a b show ?thesis by blast
qed

subsection \<open>Unrecognised materials\<close>

lemma classify_unknown:
  "ent_get ov ''material'' \<noteq> STRAIGHT X \<Longrightarrow> ent_get ov ''material'' \<noteq> CORNER X \<Longrightarrow>
   classify X ov conf = Inl (not_an_antline (ent_get ov ''material''))"
  by (simp add: classify_def not_an_antline_def)

text \<open>
  C6, as amended. If the overlay's material is neither the straight nor the corner
  antline material, \<^verbatim>\<open>style_antline\<close> raises a \<^verbatim>\<open>ValueError\<close> whose message holds the
  material between quotes, and the call leaves the document, the overlay in it, as it
  was: the error is raised at the classification, before any field is written (the
  stream has been reseeded by then).
\<close>

theorem style_antline_unrecognized:
  assumes "ent_get (store d over) ''material'' \<noteq> STRAIGHT X"
    and "ent_get (store d over) ''material'' \<noteq> CORNER X"
  shows "\<exists>msg. style_antline X over conf floor_conf (g, d) =
              (Some (ValueError msg), seed X (ent_get (store d over) ''origin''), d) \<and>
           msg = CHR 0x22 # ent_get (store d over) ''material'' @ CHR 0x22 # '' is not an antline!'' \<and>
           (\<exists>before after. msg = before @ ent_get (store d over) ''material'' @ after)"
proof -
  let ?m = "ent_get (store d over) ''material''"
  have r: "style_antline X over conf floor_conf (g, d) =
        (Some (not_an_antline ?m), seed X (ent_get (store d over) ''origin''), d)"
    using assms by (simp add: style_antline_raises classify_unknown)
  have c: "\<exists>before after.
      CHR 0x22 # ?m @ CHR 0x22 # '' is not an antline!'' = before @ ?m @ after"
    by (rule exI[of _ "[CHR 0x22]"], rule exI[of _ "CHR 0x22 # '' is not an antline!''"]) simp
  from r c show ?thesis unfolding not_an_antline_def by blast
qed

subsection \<open>Calls on the sample documents\<close>

lemma make_section_ok:
  "mats \<noteq> [] \<Longrightarrow> broken_mats \<noteq> [] \<Longrightarrow>
   fst (make_section X over mats broken_mats mo ax r s) = None"
proof -
  assume ne: "mats \<noteq> []" "broken_mats \<noteq> []"
  obtain a b t where r: "r = (a, b, t)" by (cases r)
  obtain g d where s: "s = (g, d)" by (cases s)
  from ne have "(if t then broken_mats else mats) \<noteq> []" by simp
  with make_section_cases[of t broken_mats mats X over mo ax a b g d]
  show ?thesis unfolding r s by auto
qed

lemma choose_apply_ok: "mats \<noteq> [] \<Longrightarrow> fst (choose_apply X mats h s) = None"
  using choose_apply_cases[of mats X h "fst s" "snd s"] by auto

lemma iterate_antline_no_error:
  assumes "\<And>r s. fst (body r s) = None"
  shows "fst (snd (iterate_antline body (Finite r) chance s)) = None"
  unfolding iterate_antline_finite
  by (rule antline_loop_no_error[OF assms])

lemma style_antline_ok:
  assumes cl: "classify X (store d over) (selected_conf X (store d over) conf floor_conf)
                 = Inr (c, mats, broken_mats)"
    and ne: "mats \<noteq> []" "broken_mats \<noteq> []"
  shows "fst (style_antline X over conf floor_conf (g, d)) = None"
proof (cases "broken_chance c = 0")
  case True
  show ?thesis unfolding style_antline_direct[OF cl True] by (rule choose_apply_ok[OF ne(1)])
next
  case nz: False
  show ?thesis
  proof (cases "overlay_length X (store d over) \<le> 48")
    case True
    have "(if fst (trial (broken_chance c) (seed X (ent_get (store d over) ''origin'')))
          then broken_mats else mats) \<noteq> []" using ne by simp
    then show ?thesis unfolding style_antline_short[OF cl nz True] by (rule choose_apply_ok)
  next
    case False
    then have long: "48 < overlay_length X (store d over)" by simp
    let ?body = "make_section X over mats broken_mats
         (min_origin_of X (store d over) (long_axis X (ent_get (store d over) ''angles''))
            (overlay_length X (store d over)))
         (long_axis X (ent_get (store d over) ''angles''))"
    let ?it = "iterate_antline ?body
         (Finite (of_int \<lfloor>overlay_length X (store d over) / 16\<rfloor>)) (broken_chance c)
         (seed X (ent_get (store d over) ''origin''), d)"
    obtain rs eo g' d' where it: "?it = (rs, eo, g', d')" using prod_cases4 by blast
    have "fst (snd ?it) = None"
      by (rule iterate_antline_no_error) (rule make_section_ok[OF ne])
    with it have "eo = None" by simp
    then show ?thesis unfolding style_antline_fragment[OF cl nz long it] by simp
  qed
qed

lemma sample_fields:
  "ent_get (store sample_doc 0) ''material'' = STRAIGHT sample_ext"
  "ent_get (store sample_doc 0) ''origin'' = ''0 0 0''"
  "vec_z (vec_from_str sample_ext (ent_get (store sample_doc 0) ''basisNormal'')) = 0"
  "ent_get (store floor_doc 0) ''material'' = STRAIGHT sample_ext"
  "ent_get (store floor_doc 0) ''origin'' = ''0 0 0''"
  "vec_z (vec_from_str sample_ext (ent_get (store floor_doc 0) ''basisNormal'')) = 1"
  "ent_get (store odd_doc 0) ''material'' = ''tools/toolsnodraw''"
  "ent_get (store odd_doc 0) ''origin'' = ''0 0 0''"
  by (simp_all add: sample_doc_def floor_doc_def odd_doc_def sample_over_def sample_ext_def ent_get_def)


lemma sample_classify:
  "classify sample_ext (store sample_doc 0) (Some c) = Inr (c, tex_straight c, broken_straight c)"
  "classify sample_ext (store floor_doc 0) (Some c) = Inr (c, tex_straight c, broken_straight c)"
  "classify sample_ext (store floor_doc 0) None = Inl AttributeError"
  by (simp_all add: classify_def sample_fields)

lemma sample_selected:
  "selected_conf sample_ext (store sample_doc 0) conf floor_conf = Some conf"
  "selected_conf sample_ext (store floor_doc 0) conf floor_conf = floor_conf"
  by (simp_all add: selected_conf_def sample_fields)

lemma sample_conf_fields:
  "tex_straight sample_conf = [intact_tex]" "broken_straight sample_conf = [broken_tex]"
  "broken_chance sample_conf = 50"
  by (simp_all add: sample_conf_def AntType_init_def)

theorem style_antline_unrecognized_witness:
  "ent_get (store odd_doc 0) ''material'' \<noteq> STRAIGHT sample_ext \<and>
   ent_get (store odd_doc 0) ''material'' \<noteq> CORNER sample_ext \<and>
   style_antline sample_ext 0 sample_conf None (sconst 0, odd_doc) =
     (Some (ValueError (CHR 0x22 # ''tools/toolsnodraw'' @ CHR 0x22 # '' is not an antline!'')),
      seed sample_ext ''0 0 0'', odd_doc)"
proof -
  have h: "ent_get (store odd_doc 0) ''material'' \<noteq> STRAIGHT sample_ext"
    "ent_get (store odd_doc 0) ''material'' \<noteq> CORNER sample_ext"
    by (simp_all add: sample_fields sample_ext_def)
  from style_antline_unrecognized[OF h, of sample_conf None "sconst 0"] h
  show ?thesis by (auto simp: sample_fields)
qed

text \<open>
  C6, as stated, fails: the call also raises for a recognised material, here
  \<^verbatim>\<open>IndexError\<close> from \<^verbatim>\<open>random.choice\<close> on the empty list of the style parsed from an
  empty block.
\<close>

theorem style_antline_empty_list:
  "ent_get (store sample_doc 0) ''material'' = STRAIGHT sample_ext \<and>
   AntType_parse sample_ext [] = Inr (AntType_init [] [] [] [] 0) \<and>
   style_antline sample_ext 0 (AntType_init [] [] [] [] 0) None (sconst 0, sample_doc) =
     (Some IndexError, seed sample_ext ''0 0 0'', sample_doc)"
proof -
  have p: "AntType_parse sample_ext [] = Inr (AntType_init [] [] [] [] 0)"
    by (simp add: AntType_parse_def find_all_def style_float_def)
  have cl: "classify sample_ext (store sample_doc 0)
      (selected_conf sample_ext (store sample_doc 0) (AntType_init [] [] [] [] 0) None)
      = Inr (AntType_init [] [] [] [] 0, [], [])"
    by (simp add: sample_selected sample_classify AntType_init_def)
  have z: "broken_chance (AntType_init [] [] [] [] 0) = 0" by (simp add: AntType_init_def)
  show ?thesis
    unfolding style_antline_direct[OF cl z]
    by (simp add: sample_fields p choose_apply_def choice_def)
qed

text \<open>
  C8. On a floor overlay with \<^verbatim>\<open>floor_conf\<close> not set, \<^verbatim>\<open>conf\<close> does not stay selected:
  the call raises \<^verbatim>\<open>AttributeError\<close> and styles nothing, where the same call with
  \<^verbatim>\<open>conf\<close> passed as \<^verbatim>\<open>floor_conf\<close> raises nothing.
\<close>

theorem style_antline_floor_conf_unset:
  "vec_z (vec_from_str sample_ext (ent_get (store floor_doc 0) ''basisNormal'')) \<noteq> 0 \<and>
   style_antline sample_ext 0 sample_conf None (sconst 0, floor_doc) =
     (Some AttributeError, seed sample_ext ''0 0 0'', floor_doc) \<and>
   fst (style_antline sample_ext 0 sample_conf (Some sample_conf) (sconst 0, floor_doc)) = None"
proof -
  have cl: "classify sample_ext (store floor_doc 0)
      (selected_conf sample_ext (store floor_doc 0) sample_conf None) = Inl AttributeError"
    by (simp add: sample_selected sample_classify)
  have cl2: "classify sample_ext (store floor_doc 0)
      (selected_conf sample_ext (store floor_doc 0) sample_conf (Some sample_conf))
      = Inr (sample_conf, [intact_tex], [broken_tex])"
    by (simp add: sample_selected sample_classify sample_conf_fields)
  have ok: "fst (style_antline sample_ext 0 sample_conf (Some sample_conf) (sconst 0, floor_doc)) = None"
    by (rule style_antline_ok[OF cl2]) simp_all
  show ?thesis
    unfolding style_antline_raises[OF cl] using ok by (simp add: sample_fields)
qed

lemma style_antline_floor:
  "vec_z (vec_from_str X (ent_get (store d over) ''basisNormal'')) \<noteq> 0 \<Longrightarrow>
   style_antline X over conf floor_conf (g, d) =
   style_antline X over conf' floor_conf (g, d)"
  by (simp add: style_antline_def selected_conf_def)

lemma style_antline_wall:
  "vec_z (vec_from_str X (ent_get (store d over) ''basisNormal'')) = 0 \<Longrightarrow>
   style_antline X over conf floor_conf (g, d) =
   style_antline X over conf floor_conf' (g, d)"
  by (simp add: style_antline_def selected_conf_def)

subsection \<open>Fragmentation\<close>





subsection \<open>Worked examples of fragmentation\<close>




lemma sample_doc_fields:
  "next_id sample_doc = 1" "entities sample_doc = [0]" "store sample_doc 0 = sample_over"
  "next_id other_doc = 5" "store other_doc 3 = sample_over"
  by (simp_all add: sample_doc_def other_doc_def)




theorem style_antline_deterministic_witness:
  "0 < next_id sample_doc \<and> 3 < next_id other_doc \<and> store sample_doc 0 = store other_doc 3 \<and>
   (\<exists>err gout e cls removed.
      style_antline sample_ext 0 sample_conf None (sconst 0, sample_doc) =
        (err, gout, doc_change sample_doc 0 e cls removed) \<and>
      style_antline sample_ext 3 sample_conf None (sconst 7, other_doc) =
        (err, gout, doc_change other_doc 3 e cls removed))"
proof -
  have h: "0 < next_id sample_doc \<and> 3 < next_id other_doc \<and> store sample_doc 0 = store other_doc 3"
    by (simp add: sample_doc_fields)
  from style_antline_deterministic[of sample_ext 0 sample_conf None "sconst 0" sample_doc "sconst 0",
      THEN conjunct2, rule_format, OF h, of "sconst 0" "sconst 7"] h
  show ?thesis by simp
qed

end
